theory Spec2Isabelle
  imports Complex_Main
begin

section \<open>The cyclic tone player of Noise2.py\<close>

text \<open>
  The program keeps a machine awake by playing a short sine tone once per cycle. This
  theory embeds its parameter handling (\<open>load_params\<close>, \<open>save_params\<close>,
  \<open>apply_params\<close>), the waveform computed inside \<open>CyclicPlayer._run\<close>, and the
  player itself (\<open>start\<close>, \<open>stop\<close> and the loop of \<open>_run\<close>) as an interleaving
  of atomic steps.

  Conventions of the model:
  \<^item> A Python float is a finite binary64 number, kept as the real number it denotes. Every
    float operation of the source is the exact operation followed by \<open>b64\<close>, rounding
    to the nearest binary64 number with ties to even; the cast of line 69 is \<open>f32\<close>.
    NaN and the infinities are outside the model, and so is a result too large for
    binary64 (Python would carry an infinity on).
  \<^item> \<open>np.sin\<close> is a parameter of the model, \<open>sine\<close>, as is the builtin \<open>float\<close> on a
    text, \<open>flt\<close>.
  \<^item> Python ints are \<open>int\<close>.
  \<^item> An exception is a value of \<open>py_error\<close>, returned on the left of a sum or stored
    in the program counter of the thread it ends.
  \<^item> One call of \<open>wait(1)\<close> that times out is one tick, that is one second of idle time.
  \<^item> The sound device is always available: the calls into \<open>sounddevice\<close> do not raise.
  \<^item> A call of \<open>start\<close>, \<open>stop\<close> or \<open>apply_params\<close> and each step of the loop is
    atomic; the threads interleave between them.
\<close>

subsection \<open>Binary floating point\<close>

text \<open>Rounding a real to the nearest integer, a tie going to the even neighbour.\<close>

definition rne :: "real \<Rightarrow> int" where
  "rne r = (let f = \<lfloor>r\<rfloor>; d = r - of_int f
            in if d < 1 / 2 then f else if 1 / 2 < d then f + 1
               else if even f then f else f + 1)"

text \<open>
  The binary exponent of a positive real \<open>x\<close>, that is the \<open>e\<close> with
  \<open>2^e \<le> x < 2^(e+1)\<close>, found by halving or doubling.
\<close>

function halvings :: "real \<Rightarrow> nat" where
  "halvings x = (if 2 \<le> x then Suc (halvings (x / 2)) else 0)"
  by pat_completeness auto
termination
  by (relation "measure (\<lambda>x. nat \<lfloor>x\<rfloor>)") (auto simp: nat_less_iff floor_less_iff, linarith)

function doublings :: "real \<Rightarrow> nat" where
  "doublings x = (if 0 < x \<and> x < 1 then Suc (doublings (2 * x)) else 0)"
  by pat_completeness auto
termination
proof (relation "measure (\<lambda>x. nat \<lceil>1 / x\<rceil>)")
  show "wf (measure (\<lambda>x. nat \<lceil>1 / x\<rceil>))" by simp
next
  fix x :: real
  assume a: "0 < x \<and> x < 1"
  then have "1 < 1 / x" by simp
  then have c: "2 \<le> \<lceil>1 / x\<rceil>" by linarith
  have "1 / (2 * x) = (1 / x) / 2" by simp
  also have "\<dots> \<le> of_int \<lceil>1 / x\<rceil> / 2" by (simp add: divide_right_mono)
  finally have "\<lceil>1 / (2 * x)\<rceil> \<le> \<lceil>of_int \<lceil>1 / x\<rceil> / (2::real)\<rceil>" by (rule ceiling_mono)
  also have "\<dots> < \<lceil>1 / x\<rceil>" using c by linarith
  finally show "(2 * x, x) \<in> measure (\<lambda>x. nat \<lceil>1 / x\<rceil>)" using a c by simp
qed

declare halvings.simps [simp del] doublings.simps [simp del]

definition expo :: "real \<Rightarrow> int" where
  "expo x = (if 1 \<le> x then int (halvings x) else - int (doublings x))"

text \<open>
  A format with \<open>p\<close> significant bits and least normal exponent \<open>emin\<close> has, around
  \<open>x\<close>, the spacing \<open>2^uexp\<close>; below the normal range the spacing stays that of the
  least normal numbers. \<open>fl\<close> rounds to the nearest number of the format.
\<close>

definition uexp :: "nat \<Rightarrow> int \<Rightarrow> real \<Rightarrow> int" where
  "uexp p emin x = max (expo \<bar>x\<bar>) emin - int p + 1"

definition fl :: "nat \<Rightarrow> int \<Rightarrow> real \<Rightarrow> real" where
  "fl p emin x =
     (if x = 0 then 0
      else let u = 2 powi uexp p emin x in u * of_int (rne (x / u)))"

definition b64 :: "real \<Rightarrow> real" where
  "b64 = fl 53 (- 1022)"

definition f32 :: "real \<Rightarrow> real" where
  "f32 = fl 24 (- 126)"

text \<open>Rounded into the binary64 range: otherwise the float would be an infinity.\<close>

definition finite64 :: "real \<Rightarrow> bool" where
  "finite64 x \<longleftrightarrow> \<bar>x\<bar> < 2 ^ 1024"

text \<open>\<open>np.pi\<close>, the binary64 number next to pi.\<close>

definition np_pi :: real where
  "np_pi = 884279719003555 / 281474976710656"

subsection \<open>Parameters\<close>

record params =
  frequency :: real
  volume :: real
  play_sec :: real
  cycle_sec :: real

definition DEFAULT :: params where
  "DEFAULT = \<lparr>frequency = 440, volume = b64 (1 / 1000), play_sec = 1, cycle_sec = 60\<rparr>"

datatype py_error = ValueError | TypeError | AttributeError | JSONDecodeError
  | OverflowError | MemoryError

text \<open>Python's \<open>int(x)\<close> on a float truncates towards zero.\<close>

definition py_int :: "real \<Rightarrow> int" where
  "py_int x = (if 0 \<le> x then \<lfloor>x\<rfloor> else \<lceil>x\<rceil>)"

subsection \<open>The waveform\<close>

text \<open>
  Lines 67 to 69 of \<open>_run\<close>. \<open>t = np.arange(play_samples) / fs\<close> divides the sample
  numbers by the rate in binary64; \<open>np.arange(n)\<close> is empty for \<open>n \<le> 0\<close>. In
  \<open>volume * np.sin(2 * np.pi * frequency * t)\<close> the product \<open>2 * np.pi\<close> is exact, its
  product with the frequency is rounded once, and each sample takes three more roundings
  and the sine. \<open>np.column_stack([sig, sig]).astype(np.float32)\<close> gives both channels
  the same float32 value. A stereo buffer is a list of (left, right) pairs.
\<close>

type_synonym buffer = "(real \<times> real) list"

definition arange :: "int \<Rightarrow> real list" where
  "arange n = map real [0..<nat n]"

definition gen_sig :: "(real \<Rightarrow> real) \<Rightarrow> params \<Rightarrow> int \<Rightarrow> int \<Rightarrow> buffer" where
  "gen_sig sine p fs n =
     (let t = map (\<lambda>i. b64 (b64 i / b64 (real_of_int fs))) (arange n);
          w = b64 (2 * np_pi * frequency p);
          sig = map (\<lambda>x. b64 (volume p * sine (b64 (w * x)))) t;
          out = map f32 sig
      in zip out out)"

text \<open>
  Lines 61 and 62: the lengths in samples of the tone and of the cycle, \<open>int\<close> of the
  binary64 product of the duration and the rate.
\<close>

definition play_samples_of :: "params \<Rightarrow> int \<Rightarrow> int" where
  "play_samples_of p fs = py_int (b64 (play_sec p * b64 (real_of_int fs)))"

definition cycle_samples_of :: "params \<Rightarrow> int \<Rightarrow> int" where
  "cycle_samples_of p fs = py_int (b64 (cycle_sec p * b64 (real_of_int fs)))"

text \<open>
  Line 80: the idle wait is \<open>range(int(cycle_sec - play_sec))\<close> calls of \<open>wait(1)\<close>,
  the difference taken in binary64; a negative count gives an empty range.
\<close>

definition idle_ticks :: "params \<Rightarrow> nat" where
  "idle_ticks p = nat (py_int (b64 (cycle_sec p - play_sec p)))"

text \<open>
  What numpy does when asked for an array of \<open>n\<close> frames on a machine that can hold
  \<open>heap\<close> of them: \<open>ValueError\<close> when the eight bytes per frame overflow its index
  type, \<open>MemoryError\<close> when the machine has not the memory.
\<close>

definition too_big :: "nat \<Rightarrow> int \<Rightarrow> py_error option" where
  "too_big heap n =
     (if 2 ^ 60 \<le> n then Some ValueError
      else if int heap < n then Some MemoryError else None)"

subsection \<open>The parameter file\<close>

text \<open>
  What \<open>json.load\<close> returns, as a value: a number without fraction or exponent is a
  Python int of any size, any other number a float. An object is the list of its items
  (keys distinct), looked up with \<open>map_of\<close>. A file is absent, or \<open>json.load\<close> raises
  \<open>JSONDecodeError\<close> on it, or it holds a value.
\<close>

datatype json = JNull | JBool bool | JInt int | JFloat real | JStr string
  | JArr "json list" | JObj "(string \<times> json) list"

datatype pfile = Absent | Unparsable | Content json

text \<open>
  \<open>float(v)\<close> for a value read from JSON. The builtin's reading of a text is the
  parameter \<open>flt\<close>: \<open>None\<close> when \<open>float\<close> raises \<open>ValueError\<close> on the text,
  otherwise the binary64 number read. An int is rounded to binary64 and raises
  \<open>OverflowError\<close> when it is too large for that. \<open>float(None)\<close>, \<open>float([])\<close> and
  \<open>float({})\<close> raise \<open>TypeError\<close>; \<open>float(True)\<close> is \<open>1.0\<close>.
\<close>

fun py_float :: "(string \<Rightarrow> real option) \<Rightarrow> json \<Rightarrow> py_error + real" where
  "py_float flt (JFloat r) = Inr r"
| "py_float flt (JInt n) =
     (if finite64 (b64 (of_int n)) then Inr (b64 (of_int n)) else Inl OverflowError)"
| "py_float flt (JBool b) = Inr (if b then 1 else 0)"
| "py_float flt (JStr t) = (case flt t of None \<Rightarrow> Inl ValueError | Some r \<Rightarrow> Inr r)"
| "py_float flt JNull = Inl TypeError"
| "py_float flt (JArr xs) = Inl TypeError"
| "py_float flt (JObj kvs) = Inl TypeError"

text \<open>\<open>data.get(k, d)\<close> on a value: only an object has the method.\<close>

fun json_get :: "json \<Rightarrow> string \<Rightarrow> json \<Rightarrow> py_error + json" where
  "json_get (JObj kvs) k d = Inr (case map_of kvs k of None \<Rightarrow> d | Some v \<Rightarrow> v)"
| "json_get other k d = Inl AttributeError"

text \<open>One entry of the dict comprehension of line 43: \<open>float(data.get(k, DEFAULT[k]))\<close>.\<close>

definition load_field ::
  "(string \<Rightarrow> real option) \<Rightarrow> json \<Rightarrow> string \<Rightarrow> real \<Rightarrow> py_error + real" where
  "load_field flt data k d =
     (case json_get data k (JFloat d) of Inl e \<Rightarrow> Inl e | Inr v \<Rightarrow> py_float flt v)"

definition load_params :: "(string \<Rightarrow> real option) \<Rightarrow> pfile \<Rightarrow> py_error + params" where
  "load_params flt f =
     (case f of
        Absent \<Rightarrow> Inr DEFAULT
      | Unparsable \<Rightarrow> Inl JSONDecodeError
      | Content data \<Rightarrow>
          (case load_field flt data ''frequency'' (frequency DEFAULT) of Inl e \<Rightarrow> Inl e
           | Inr fr \<Rightarrow>
          (case load_field flt data ''volume'' (volume DEFAULT) of Inl e \<Rightarrow> Inl e
           | Inr vo \<Rightarrow>
          (case load_field flt data ''play_sec'' (play_sec DEFAULT) of Inl e \<Rightarrow> Inl e
           | Inr pl \<Rightarrow>
          (case load_field flt data ''cycle_sec'' (cycle_sec DEFAULT) of Inl e \<Rightarrow> Inl e
           | Inr cy \<Rightarrow>
             Inr \<lparr>frequency = fr, volume = vo, play_sec = pl, cycle_sec = cy\<rparr>)))))"

text \<open>
  \<open>json.dump\<close> of the parameters, as \<open>apply_params\<close> calls it (its only caller):
  the frequency and the durations are floats, and the volume is what
  \<open>max(0, min(1, v))\<close> returned, the int 0 or 1 unless \<open>v\<close> lies strictly between.
\<close>

definition dump_volume :: "real \<Rightarrow> json" where
  "dump_volume v = (if v \<le> 0 then JInt 0 else if 1 \<le> v then JInt 1 else JFloat v)"

definition dump :: "params \<Rightarrow> json" where
  "dump p = JObj [(''frequency'', JFloat (frequency p)), (''volume'', dump_volume (volume p)),
                  (''play_sec'', JFloat (play_sec p)), (''cycle_sec'', JFloat (cycle_sec p))]"

subsection \<open>The player and the window\<close>

text \<open>
  The texts shown in the status label and the tray tooltip are not ASCII; they are named
  here by their meaning: \<open>Txt_waiting\<close> (line 75), \<open>Txt_wait_next\<close> (line 76),
  \<open>Txt_stopped\<close> (lines 83, 84 and 130).
\<close>

datatype caption = Txt_waiting | Txt_wait_next | Txt_stopped

text \<open>
  Where the thread running \<open>_run\<close> stands. \<open>Setup\<close>: before line 60. \<open>LoopHead\<close>:
  at the test of line 65. \<open>ToneReady\<close>: past that test, before line 67. \<open>Playing\<close>:
  inside \<open>sd.wait()\<close> of line 74. \<open>Idling k\<close>: in the loop of line 80 with \<open>k\<close>
  iterations left. \<open>Finished\<close>: returned after line 84. \<open>Crashed e\<close>: ended by the
  exception \<open>e\<close>.
\<close>

datatype pc = Setup | LoopHead | ToneReady | Playing | Idling nat | Finished
  | Crashed py_error

record thread =
  pc :: pc
  play_samples :: int
  cycle_samples :: int
  silence :: buffer

datatype sound = Quiet | Sounding buffer

datatype event = PlayTone buffer | PlaySilence buffer

text \<open>
  The globals of the module. \<open>threads\<close> holds every thread ever created by \<open>start\<close>,
  oldest first; \<open>self._thread\<close> is the last one, and \<open>None\<close> when the list is empty.
  \<open>device\<close> is what \<open>sounddevice\<close> is playing. \<open>left_lbl\<close> and \<open>right_lbl\<close> are the
  numbers the two level labels show (both \<open>0.000\<close> when the window is created).
  \<open>trace\<close> records each call of \<open>sd.play\<close>, in order. \<open>heap_frames\<close> is the
  longest array, in frames, that numpy can allocate on the machine.
\<close>

record state =
  params :: params
  samplerate :: int
  stop_evt :: bool
  threads :: "thread list"
  device :: sound
  root :: bool
  status_lbl :: caption
  left_lbl :: real
  right_lbl :: real
  tray_icon :: bool
  tray_title :: "caption option"
  param_file :: pfile
  trace :: "event list"
  heap_frames :: nat

definition save_params :: "state \<Rightarrow> state" where
  "save_params s = s\<lparr>param_file := Content (dump (params s))\<rparr>"

text \<open>
  The module starts by loading the parameters (line 50); \<open>create_window\<close> then builds
  the window with the status text \<open>Txt_stopped\<close> and both levels at zero. The machine
  of \<open>initial\<close> has room for \<open>2^32\<close> frames.
\<close>

definition initial :: "params \<Rightarrow> int \<Rightarrow> pfile \<Rightarrow> state" where
  "initial p fs f =
     \<lparr>params = p, samplerate = fs, stop_evt = False, threads = [], device = Quiet,
      root = True, status_lbl = Txt_stopped, left_lbl = 0, right_lbl = 0,
      tray_icon = False, tray_title = None, param_file = f, trace = [],
      heap_frames = 2 ^ 32\<rparr>"

definition boot :: "(string \<Rightarrow> real option) \<Rightarrow> pfile \<Rightarrow> int \<Rightarrow> py_error + state" where
  "boot flt f fs =
     (case load_params flt f of Inl e \<Rightarrow> Inl e | Inr p \<Rightarrow> Inr (initial p fs f))"

definition update_status :: "caption \<Rightarrow> state \<Rightarrow> state" where
  "update_status t s = (if root s then s\<lparr>status_lbl := t\<rparr> else s)"

definition update_tray_tooltip :: "caption \<Rightarrow> state \<Rightarrow> state" where
  "update_tray_tooltip t s = (if tray_icon s then s\<lparr>tray_title := Some t\<rparr> else s)"

definition update_levels :: "real \<Rightarrow> real \<Rightarrow> state \<Rightarrow> state" where
  "update_levels left right s =
     (if root s then s\<lparr>left_lbl := left, right_lbl := right\<rparr> else s)"

text \<open>\<open>sd.play(buf)\<close>: the device takes the new buffer, replacing what it was playing.\<close>

definition sd_play :: "event \<Rightarrow> state \<Rightarrow> state" where
  "sd_play ev s =
     s\<lparr>device := Sounding (case ev of PlayTone b \<Rightarrow> b | PlaySilence b \<Rightarrow> b),
       trace := trace s @ [ev]\<rparr>"

subsection \<open>apply\_params\<close>

text \<open>
  The four entry widgets hold texts. Each assignment of lines 147 to 150 writes into the
  shared dict at once, so a \<open>ValueError\<close> of a later line leaves the earlier writes in
  place; \<open>save_params\<close> runs only when no line raised. The literal \<open>0.1\<close> is the
  binary64 number next to one tenth.
\<close>

record entries =
  freq_ent :: string
  vol_ent :: string
  play_ent :: string
  cycle_ent :: string

definition apply_params :: "(string \<Rightarrow> real option) \<Rightarrow> entries \<Rightarrow> state \<Rightarrow> state" where
  "apply_params flt e s =
     (case flt (freq_ent e) of None \<Rightarrow> s
      | Some f \<Rightarrow>
     (let s1 = s\<lparr>params := (params s)\<lparr>frequency := f\<rparr>\<rparr> in
      case flt (vol_ent e) of None \<Rightarrow> s1
      | Some v \<Rightarrow>
     (let s2 = s1\<lparr>params := (params s1)\<lparr>volume := max 0 (min 1 v)\<rparr>\<rparr> in
      case flt (play_ent e) of None \<Rightarrow> s2
      | Some p \<Rightarrow>
     (let s3 = s2\<lparr>params := (params s2)\<lparr>play_sec := max (b64 (1 / 10)) p\<rparr>\<rparr> in
      case flt (cycle_ent e) of None \<Rightarrow> s3
      | Some c \<Rightarrow>
          save_params (s3\<lparr>params := (params s3)\<lparr>cycle_sec := max (b64 (1 / 10)) c\<rparr>\<rparr>)))))"

text \<open>An update is accepted when none of the four calls of \<open>float\<close> raises.\<close>

definition accepted :: "(string \<Rightarrow> real option) \<Rightarrow> entries \<Rightarrow> bool" where
  "accepted flt e \<longleftrightarrow>
     flt (freq_ent e) \<noteq> None \<and> flt (vol_ent e) \<noteq> None \<and>
     flt (play_ent e) \<noteq> None \<and> flt (cycle_ent e) \<noteq> None"

subsection \<open>The loop of \_run, one atomic step at a time\<close>

definition alive :: "thread \<Rightarrow> bool" where
  "alive t = (case pc t of Finished \<Rightarrow> False | Crashed e \<Rightarrow> False | _ \<Rightarrow> True)"

text \<open>
  One step of a thread with locals \<open>t\<close> on the globals \<open>s\<close>.
  \<^item> \<open>Setup\<close>, lines 60 to 63: \<open>np.zeros\<close> raises \<open>ValueError\<close> on a negative length,
    and fails on a length that is too big.
  \<^item> \<open>LoopHead\<close>, line 65: leave the loop when the event is set (lines 83, 84), and
    enter its body otherwise. Nothing ties this test to what follows: another thread
    can set the event before the next step.
  \<^item> \<open>ToneReady\<close>, lines 67 to 73: build the tone from the volume and frequency of this
    moment and the length fixed at set-up, and play it; numpy fails on a length that is
    too big.
  \<^item> \<open>Playing\<close>, lines 74 to 80: \<open>sd.wait()\<close> returns (the tone ended or \<open>sd.stop()\<close> cut
    it), the status changes, the silence fixed at set-up is played, and the number of
    ticks is read from the parameters of this moment.
  \<^item> \<open>Idling\<close>, lines 80 to 82: an exhausted range falls through to the loop head; else
    \<open>wait(1)\<close> returns true at once when the event is set (\<open>break\<close>), and false after
    one second otherwise.
\<close>

definition run_step :: "(real \<Rightarrow> real) \<Rightarrow> thread \<Rightarrow> state \<Rightarrow> thread \<times> state" where
  "run_step sine t s =
     (case pc t of
        Setup \<Rightarrow>
          (let fs = samplerate s;
               ps = play_samples_of (params s) fs;
               cs = cycle_samples_of (params s) fs
           in if cs - ps < 0 then (t\<lparr>pc := Crashed ValueError\<rparr>, s)
              else case too_big (heap_frames s) (cs - ps) of
                Some e \<Rightarrow> (t\<lparr>pc := Crashed e\<rparr>, s)
              | None \<Rightarrow>
                  (t\<lparr>pc := LoopHead, play_samples := ps, cycle_samples := cs,
                     silence := replicate (nat (cs - ps)) (0, 0)\<rparr>, s))
      | LoopHead \<Rightarrow>
          (if stop_evt s
           then (t\<lparr>pc := Finished\<rparr>,
                 update_tray_tooltip Txt_stopped (update_status Txt_stopped s))
           else (t\<lparr>pc := ToneReady\<rparr>, s))
      | ToneReady \<Rightarrow>
          (case too_big (heap_frames s) (play_samples t) of
             Some e \<Rightarrow> (t\<lparr>pc := Crashed e\<rparr>, s)
           | None \<Rightarrow>
               (t\<lparr>pc := Playing\<rparr>,
                sd_play (PlayTone (gen_sig sine (params s) (samplerate s) (play_samples t))) s))
      | Playing \<Rightarrow>
          (let s1 = update_tray_tooltip Txt_wait_next (update_status Txt_waiting s);
               s2 = sd_play (PlaySilence (silence t)) s1
           in (t\<lparr>pc := Idling (idle_ticks (params s2))\<rparr>, s2))
      | Idling k \<Rightarrow>
          (case k of
             0 \<Rightarrow> (t\<lparr>pc := LoopHead\<rparr>, s)
           | Suc j \<Rightarrow> if stop_evt s then (t\<lparr>pc := LoopHead\<rparr>, s)
                      else (t\<lparr>pc := Idling j\<rparr>, s))
      | Finished \<Rightarrow> (t, s)
      | Crashed e \<Rightarrow> (t, s))"

text \<open>The scheduler lets thread number \<open>i\<close> take its next step.\<close>

definition step :: "(real \<Rightarrow> real) \<Rightarrow> nat \<Rightarrow> state \<Rightarrow> state" where
  "step sine i s =
     (if i < length (threads s)
      then (let (t', s') = run_step sine (threads s ! i) s
            in s'\<lparr>threads := (threads s')[i := t']\<rparr>)
      else s)"

subsection \<open>start, stop and toggle\<close>

definition running :: "state \<Rightarrow> bool" where
  "running s = (case threads s of [] \<Rightarrow> False | _ \<Rightarrow> alive (last (threads s)))"

definition new_thread :: thread where
  "new_thread = \<lparr>pc = Setup, play_samples = 0, cycle_samples = 0, silence = []\<rparr>"

definition start :: "state \<Rightarrow> state" where
  "start s =
     (if running s then s
      else s\<lparr>stop_evt := False, threads := threads s @ [new_thread]\<rparr>)"

definition stop :: "state \<Rightarrow> state" where
  "stop s = s\<lparr>stop_evt := True, device := Quiet\<rparr>"

definition toggle_play :: "state \<Rightarrow> state" where
  "toggle_play s = (if running s then stop s else start s)"

text \<open>The number of threads that are inside \<open>_run\<close>.\<close>

definition running_loops :: "state \<Rightarrow> nat" where
  "running_loops s = length (filter alive (threads s))"

subsection \<open>Runs\<close>

datatype action = Start | Stop | Toggle | Apply entries | Step nat

fun perform ::
  "(string \<Rightarrow> real option) \<Rightarrow> (real \<Rightarrow> real) \<Rightarrow> action \<Rightarrow> state \<Rightarrow> state" where
  "perform flt sine Start s = start s"
| "perform flt sine Stop s = stop s"
| "perform flt sine Toggle s = toggle_play s"
| "perform flt sine (Apply e) s = apply_params flt e s"
| "perform flt sine (Step i) s = step sine i s"

fun exec ::
  "(string \<Rightarrow> real option) \<Rightarrow> (real \<Rightarrow> real) \<Rightarrow> action list \<Rightarrow> state \<Rightarrow> state" where
  "exec flt sine [] s = s"
| "exec flt sine (a # as) s = exec flt sine as (perform flt sine a s)"

text \<open>A run of thread steps only, given by the thread numbers in order.\<close>

fun steps :: "(real \<Rightarrow> real) \<Rightarrow> nat list \<Rightarrow> state \<Rightarrow> state" where
  "steps sine [] s = s"
| "steps sine (i # is) s = steps sine is (step sine i s)"

subsection \<open>Concrete inputs\<close>

text \<open>
  The builtin \<open>float\<close> on the texts typed in the concrete runs below: a decimal text
  gives the binary64 number next to it. Every text that is used and is not listed is one
  that \<open>float\<close> rejects with \<open>ValueError\<close>, such as \<open>abc\<close> or the empty text.
\<close>

definition typed_float :: "string \<Rightarrow> real option" where
  "typed_float =
     map_of [(''440'', 440), (''880'', 880), (''0.001'', b64 (1 / 1000)),
             (''0.2'', b64 (1 / 5)), (''0.35'', b64 (35 / 100)), (''0.4'', b64 (4 / 10)),
             (''1.4'', b64 (14 / 10)), (''1.5'', 3 / 2), (''1'', 1), (''3'', 3), (''5'', 5),
             (''60'', 60)]"

definition entered :: "string \<Rightarrow> string \<Rightarrow> string \<Rightarrow> string \<Rightarrow> entries" where
  "entered a b c d = \<lparr>freq_ent = a, vol_ent = b, play_ent = c, cycle_ent = d\<rparr>"

text \<open>
  The sine of the concrete runs: the sine rounded to binary64, with its value written
  out at the two arguments where a run below looks at a sample. These are the arguments
  of sample 1 at 44100 Hz and of sample 300 at 48000 Hz for a tone of 440 Hz, as the
  binary64 products of line 68 give them, and the values the C library returns there.
\<close>

definition lib_sin :: "real \<Rightarrow> real" where
  "lib_sin x =
     (if x = 4517245693812265 / 72057594037927936
      then 4514287510828417 / 72057594037927936
      else if x = 4863538454519553 / 281474976710656 then - 1
      else b64 (sin x))"

text \<open>A tone of 65/128 of a second: both factors of its length are exact binary floats.\<close>

definition short_tone :: params where
  "short_tone =
     \<lparr>frequency = 440, volume = b64 (1 / 5), play_sec = 65 / 128, cycle_sec = 5\<rparr>"

text \<open>A cycle of one and a half seconds around a tone of one second.\<close>

definition odd_cycle :: params where
  "odd_cycle =
     \<lparr>frequency = 440, volume = b64 (1 / 1000), play_sec = 1, cycle_sec = 3 / 2\<rparr>"

text \<open>The scenario of the level read-out: 440 Hz at volume 0.2, one second in five.\<close>

definition scenario :: params where
  "scenario = \<lparr>frequency = 440, volume = b64 (1 / 5), play_sec = 1, cycle_sec = 5\<rparr>"

subsection \<open>Notions used by the properties\<close>

text \<open>The calls of \<open>sd.play\<close> that start a tone (line 73), as opposed to silence (line 79).\<close>

fun is_tone :: "event \<Rightarrow> bool" where
  "is_tone (PlayTone b) = True"
| "is_tone (PlaySilence b) = False"

text \<open>The actions that may call \<open>start\<close>.\<close>

fun restarts :: "action \<Rightarrow> bool" where
  "restarts Start = True"
| "restarts Toggle = True"
| "restarts a = False"

text \<open>Every thread but the one in \<open>self._thread\<close> has ended.\<close>

definition one_loop :: "state \<Rightarrow> bool" where
  "one_loop s = list_all (\<lambda>t. \<not> alive t) (butlast (threads s))"

text \<open>How many of its own steps a thread needs to end once the event is set, at most.\<close>

fun steps_left :: "pc \<Rightarrow> nat" where
  "steps_left Setup = 2"
| "steps_left LoopHead = 1"
| "steps_left ToneReady = 4"
| "steps_left Playing = 3"
| "steps_left (Idling k) = 2"
| "steps_left Finished = 0"
| "steps_left (Crashed e) = 0"

text \<open>
  The threads that still have a tone to start although they will see the event at their
  next test (\<open>n_ready\<close>), those that still have a silence to start (\<open>n_sounding\<close>), and
  the tones and silences started so far.
\<close>

definition n_ready :: "state \<Rightarrow> nat" where
  "n_ready s = length (filter (\<lambda>t. pc t = ToneReady) (threads s))"

definition n_sounding :: "state \<Rightarrow> nat" where
  "n_sounding s = length (filter (\<lambda>t. pc t = ToneReady \<or> pc t = Playing) (threads s))"

definition n_tone :: "state \<Rightarrow> nat" where
  "n_tone s = length (filter is_tone (trace s))"

definition n_silence :: "state \<Rightarrow> nat" where
  "n_silence s = length (filter (\<lambda>ev. \<not> is_tone ev) (trace s))"

section \<open>Properties\<close>

subsection \<open>Rounding\<close>

lemma rne_of_int [simp]: "rne (of_int k) = k"
  by (simp add: rne_def)

lemma rne_between: "\<lfloor>r\<rfloor> \<le> rne r \<and> rne r \<le> \<lfloor>r\<rfloor> + 1"
  by (simp add: rne_def Let_def)

lemma rne_mono: "a \<le> b \<Longrightarrow> rne a \<le> rne b"
proof -
  assume ab: "a \<le> b"
  show ?thesis
  proof (cases "\<lfloor>a\<rfloor> = \<lfloor>b\<rfloor>")
    case True
    with ab show ?thesis by (auto simp: rne_def Let_def)
  next
    case False
    with ab have "\<lfloor>a\<rfloor> + 1 \<le> \<lfloor>b\<rfloor>" using floor_mono [OF ab] by linarith
    with rne_between [of a] rne_between [of b] show ?thesis by linarith
  qed
qed

lemma rne_uminus: "rne (- a) = - rne a"
proof (cases "a = of_int \<lfloor>a\<rfloor>")
  case True
  then obtain k where "a = of_int k" ..
  then show ?thesis by (simp flip: of_int_minus)
next
  case False
  then have f: "\<lfloor>- a\<rfloor> = - \<lfloor>a\<rfloor> - 1"
    using False by (simp add: floor_minus ceiling_altdef)
  have d: "0 < a - of_int \<lfloor>a\<rfloor>" using False by (smt (verit) of_int_floor_le)
  show ?thesis using d
    by (auto simp: rne_def Let_def f)
qed

lemma halvings_bounds: "1 \<le> x \<Longrightarrow> 2 ^ halvings x \<le> x \<and> x < 2 * 2 ^ halvings x"
proof (induction x rule: halvings.induct)
  case (1 x)
  show ?case
  proof (cases "2 \<le> x")
    case True
    then have "1 \<le> x / 2" by simp
    from "1.IH" [OF True this] True show ?thesis
      by (subst (1 2) halvings.simps) (simp add: field_simps)
  next
    case False
    with "1.prems" show ?thesis by (subst (1 2) halvings.simps) simp
  qed
qed

lemma doublings_bounds:
  "0 < x \<Longrightarrow> x < 1 \<Longrightarrow> 1 \<le> x * 2 ^ doublings x \<and> x * 2 ^ doublings x < 2"
proof (induction x rule: doublings.induct)
  case (1 x)
  show ?case
  proof (cases "2 * x < 1")
    case True
    from "1.IH" [of] "1.prems" True
    have "1 \<le> 2 * x * 2 ^ doublings (2 * x) \<and> 2 * x * 2 ^ doublings (2 * x) < 2"
      by simp
    with "1.prems" show ?thesis by (subst (1 2) doublings.simps) (simp add: field_simps)
  next
    case False
    then have "doublings (2 * x) = 0" by (subst doublings.simps) simp
    with "1.prems" False show ?thesis by (subst (1 2) doublings.simps) simp
  qed
qed

lemma expo_bounds:
  assumes "0 < x"
  shows "2 powi expo x \<le> x \<and> x < 2 powi (expo x + 1)"
proof (cases "1 \<le> x")
  case True
  with halvings_bounds [OF True] show ?thesis
    by (simp add: expo_def power_int_add)
next
  case False
  with assms have x: "0 < x" "x < 1" by simp_all
  from doublings_bounds [OF x] have b: "1 \<le> x * 2 ^ doublings x" "x * 2 ^ doublings x < 2"
    by simp_all
  have e: "expo x = - int (doublings x)" using False by (simp add: expo_def)
  have p1: "(2::real) powi expo x = 1 / 2 ^ doublings x" by (simp add: e power_int_minus_divide)
  have p2: "(2::real) powi (expo x + 1) = 2 / 2 ^ doublings x"
    using power_int_add [of "2::real" "- int (doublings x)" 1]
    by (simp add: e power_int_minus_divide)
  have d: "(0::real) < 2 ^ doublings x" by simp
  have "1 / 2 ^ doublings x \<le> x" using b(1) d by (simp add: divide_le_eq)
  moreover have "x < 2 / 2 ^ doublings x" using b(2) d by (simp add: less_divide_eq)
  ultimately show ?thesis unfolding p1 p2 by simp
qed

lemma expo_mono:
  assumes "0 < x" "x \<le> y"
  shows "expo x \<le> expo y"
proof (rule ccontr)
  assume "\<not> expo x \<le> expo y"
  then have "expo y + 1 \<le> expo x" by simp
  then have "(2::real) powi (expo y + 1) \<le> 2 powi expo x"
    by (intro power_int_increasing) simp_all
  with expo_bounds [OF assms(1)] expo_bounds [of y] assms show False by simp
qed

lemma rne_zero [simp]: "rne 0 = 0"
  using rne_of_int [of 0] by simp

lemma rne_pow2 [simp]: "rne (2 ^ n) = 2 ^ n"
  using rne_of_int [of "2 ^ n"] by simp

lemma fl_zero [simp]: "fl p m 0 = 0"
  by (simp add: fl_def)

lemma uexp_uminus [simp]: "uexp p m (- x) = uexp p m x"
  by (simp add: uexp_def)

lemma fl_uminus: "fl p m (- x) = - fl p m x"
  by (simp add: fl_def Let_def rne_uminus)

lemma fl_nonneg: "0 \<le> x \<Longrightarrow> 0 \<le> fl p m x"
proof -
  assume x: "0 \<le> x"
  have "0 \<le> rne (x / 2 powi k)" for k
    using rne_mono [of 0 "x / 2 powi k"] x by simp
  then show ?thesis by (simp add: fl_def Let_def)
qed

lemma powi_ratio:
  assumes "j \<le> k"
  shows "(2::real) powi k = 2 powi j * 2 ^ nat (k - j)"
proof -
  have "(2::real) powi k = 2 powi (j + (k - j))" by simp
  also have "\<dots> = 2 powi j * 2 powi (k - j)" by (rule power_int_add) simp
  also have "2 powi (k - j) = (2::real) ^ nat (k - j)" using assms by (simp add: power_int_def)
  finally show ?thesis .
qed

lemma grid_le:
  assumes "x \<noteq> 0" "x \<le> 2 powi k" "uexp p m x \<le> k"
  shows "fl p m x \<le> 2 powi k"
proof -
  define j where "j = uexp p m x"
  define n where "n = nat (k - j)"
  have u: "(0::real) < 2 powi j" by simp
  have k: "(2::real) powi k = 2 powi j * 2 ^ n" unfolding n_def using assms(3) j_def by (intro powi_ratio) simp
  have "x / 2 powi j \<le> 2 ^ n" using assms(2) u unfolding k by (simp add: divide_le_eq mult.commute)
  from rne_mono [OF this] have "rne (x / 2 powi j) \<le> 2 ^ n" by simp
  then have "real_of_int (rne (x / 2 powi j)) \<le> 2 ^ n"
    using of_int_le_iff [of "rne (x / 2 powi j)" "2 ^ n", where ?'a = real] by simp
  then have "2 powi j * real_of_int (rne (x / 2 powi j)) \<le> 2 powi j * 2 ^ n"
    using u by simp
  then show ?thesis using assms(1) unfolding k by (simp add: fl_def Let_def j_def)
qed

lemma grid_ge:
  assumes "x \<noteq> 0" "2 powi k \<le> x" "uexp p m x \<le> k"
  shows "2 powi k \<le> fl p m x"
proof -
  define j where "j = uexp p m x"
  define n where "n = nat (k - j)"
  have u: "(0::real) < 2 powi j" by simp
  have k: "(2::real) powi k = 2 powi j * 2 ^ n" unfolding n_def using assms(3) j_def by (intro powi_ratio) simp
  have "2 ^ n \<le> x / 2 powi j" using assms(2) u unfolding k by (simp add: le_divide_eq mult.commute)
  from rne_mono [OF this] have "2 ^ n \<le> rne (x / 2 powi j)" by simp
  then have "2 ^ n \<le> real_of_int (rne (x / 2 powi j))"
    using of_int_le_iff [of "2 ^ n" "rne (x / 2 powi j)", where ?'a = real] by simp
  then have "2 powi j * 2 ^ n \<le> 2 powi j * real_of_int (rne (x / 2 powi j))"
    using u by simp
  then show ?thesis using assms(1) unfolding k by (simp add: fl_def Let_def j_def)
qed

lemma fl_mono_pos:
  assumes "0 < x" "x \<le> y" "0 < p"
  shows "fl p m x \<le> fl p m y"
proof -
  have y: "0 < y" using assms by simp
  define ex where "ex = max (expo x) m"
  define ey where "ey = max (expo y) m"
  have ux: "uexp p m x = ex - int p + 1" using assms(1) by (simp add: uexp_def ex_def)
  have uy: "uexp p m y = ey - int p + 1" using y by (simp add: uexp_def ey_def)
  have le: "ex \<le> ey" using expo_mono [OF assms(1,2)] unfolding ex_def ey_def by linarith
  show ?thesis
  proof (cases "ex = ey")
    case True
    then have u: "uexp p m x = uexp p m y" by (simp add: ux uy)
    have "x / 2 powi uexp p m y \<le> y / 2 powi uexp p m y"
      using assms(2) by (simp add: divide_right_mono)
    from rne_mono [OF this] assms(1) y show ?thesis
      by (simp add: fl_def Let_def u)
  next
    case False
    with le have lt: "ex < ey" by simp
    then have ey: "ey = expo y" unfolding ex_def ey_def by linarith
    have "expo x + 1 \<le> ey" using lt unfolding ex_def by linarith
    then have "(2::real) powi (expo x + 1) \<le> 2 powi ey" by (intro power_int_increasing) simp_all
    with expo_bounds [OF assms(1)] have "x \<le> 2 powi ey" by simp
    moreover have "uexp p m x \<le> ey" using lt by (simp add: ux)
    ultimately have a: "fl p m x \<le> 2 powi ey" using assms(1) by (intro grid_le) simp_all
    have "2 powi ey \<le> y" using expo_bounds [OF y] ey by simp
    moreover have "uexp p m y \<le> ey" using assms(3) by (simp add: uy)
    ultimately have b: "2 powi ey \<le> fl p m y" using y by (intro grid_ge) simp_all
    from a b show ?thesis by simp
  qed
qed

lemma fl_mono:
  assumes "x \<le> y" "0 < p"
  shows "fl p m x \<le> fl p m y"
proof -
  consider "0 < x" | "x \<le> 0" "0 \<le> y" | "y < 0" by linarith
  then show ?thesis
  proof cases
    case 1
    then show ?thesis using assms by (rule fl_mono_pos)
  next
    case 2
    have "fl p m x \<le> 0" using fl_nonneg [of "- x" p m] 2(1) by (simp add: fl_uminus)
    moreover have "0 \<le> fl p m y" using 2(2) by (rule fl_nonneg)
    ultimately show ?thesis by simp
  next
    case 3
    have "fl p m (- y) \<le> fl p m (- x)" using 3 assms by (intro fl_mono_pos) simp_all
    then show ?thesis by (simp add: fl_uminus)
  qed
qed


lemma b64_mono: "x \<le> y \<Longrightarrow> b64 x \<le> b64 y"
  by (simp add: b64_def fl_mono)




text \<open>The equations that evaluate a rounding at a given number.\<close>

lemmas fl_eval = b64_def f32_def fl_def uexp_def expo_def halvings.simps doublings.simps
  rne_def Let_def

lemma b64_values:
  "b64 0 = 0" "b64 1 = 1" "b64 (- 1) = - 1"
  "b64 (1 / 10) = 3602879701896397 / 36028797018963968"
  "b64 (1 / 5) = 3602879701896397 / 18014398509481984"
  "b64 (1 / 1000) = 1152921504606847 / 1152921504606846976"
  by (simp_all add: fl_eval)


subsection \<open>Basic facts about the waveform\<close>

lemma length_gen_sig: "length (gen_sig sine p fs n) = nat n"
  by (simp add: gen_sig_def arange_def Let_def)

lemma nth_gen_sig:
  assumes "i < nat n"
  shows "gen_sig sine p fs n ! i =
           (f32 (b64 (volume p * sine (b64 (b64 (2 * np_pi * frequency p)
                                              * b64 (b64 (real i) / b64 (real_of_int fs)))))),
            f32 (b64 (volume p * sine (b64 (b64 (2 * np_pi * frequency p)
                                              * b64 (b64 (real i) / b64 (real_of_int fs)))))))"
  using assms by (simp add: gen_sig_def arange_def Let_def)






lemma sample_1_at_44100:
  "f32 (b64 (b64 (1 / 5) * lib_sin (b64 (b64 (2 * np_pi * 440) * b64 (b64 (real 1) / b64 (real_of_int 44100))))))
     = 13453625 / 1073741824"
  by (simp add: lib_sin_def np_pi_def fl_eval)







subsection \<open>apply\_params\<close>

lemma params_all_updated:
  "(p\<lparr>frequency := a, volume := b, play_sec := c, cycle_sec := d\<rparr> :: params) =
     \<lparr>frequency = a, volume = b, play_sec = c, cycle_sec = d\<rparr>"
  by (cases p) simp

lemma apply_params_accepted:
  assumes "accepted flt e"
  shows "apply_params flt e s =
           s\<lparr>params := \<lparr>frequency = the (flt (freq_ent e)),
                          volume = max 0 (min 1 (the (flt (vol_ent e)))),
                          play_sec = max (b64 (1 / 10)) (the (flt (play_ent e))),
                          cycle_sec = max (b64 (1 / 10)) (the (flt (cycle_ent e)))\<rparr>,
             param_file := Content (dump \<lparr>frequency = the (flt (freq_ent e)),
                          volume = max 0 (min 1 (the (flt (vol_ent e)))),
                          play_sec = max (b64 (1 / 10)) (the (flt (play_ent e))),
                          cycle_sec = max (b64 (1 / 10)) (the (flt (cycle_ent e)))\<rparr>)\<rparr>"
  using assms
  by (auto simp: accepted_def apply_params_def save_params_def Let_def params_all_updated)

lemma apply_params_rejected_file:
  "\<not> accepted flt e \<Longrightarrow> param_file (apply_params flt e s) = param_file s"
  by (auto simp: accepted_def apply_params_def save_params_def Let_def split: option.splits)

lemma apply_params_first_rejected:
  "flt (freq_ent e) = None \<Longrightarrow> apply_params flt e s = s"
  by (simp add: apply_params_def)





subsection \<open>Steps of the loop\<close>

lemma run_step_globals:
  "stop_evt (snd (run_step sine t s)) = stop_evt s"
  "params (snd (run_step sine t s)) = params s"
  "samplerate (snd (run_step sine t s)) = samplerate s"
  "threads (snd (run_step sine t s)) = threads s"
  "left_lbl (snd (run_step sine t s)) = left_lbl s"
  "right_lbl (snd (run_step sine t s)) = right_lbl s"
  "param_file (snd (run_step sine t s)) = param_file s"
  "heap_frames (snd (run_step sine t s)) = heap_frames s"
  by (simp_all add: run_step_def Let_def update_status_def update_tray_tooltip_def sd_play_def
        split: pc.splits nat.splits option.splits)

lemma step_globals:
  "stop_evt (step sine i s) = stop_evt s"
  "params (step sine i s) = params s"
  "samplerate (step sine i s) = samplerate s"
  "left_lbl (step sine i s) = left_lbl s"
  "right_lbl (step sine i s) = right_lbl s"
  "param_file (step sine i s) = param_file s"
  "length (threads (step sine i s)) = length (threads s)"
  using run_step_globals [of sine "threads s ! i" s]
  by (simp_all add: step_def case_prod_beta Let_def)

lemma step_nth:
  "i < length (threads s) \<Longrightarrow>
     threads (step sine i s) ! i = fst (run_step sine (threads s ! i) s)"
  using run_step_globals(4) [of sine "threads s ! i" s]
  by (simp add: step_def case_prod_beta Let_def)

lemma step_nth_other:
  "j \<noteq> i \<Longrightarrow> threads (step sine i s) ! j = threads s ! j"
  using run_step_globals(4) [of sine "threads s ! i" s]
  by (simp add: step_def case_prod_beta Let_def)

lemma step_trace:
  "i < length (threads s) \<Longrightarrow>
     trace (step sine i s) = trace (snd (run_step sine (threads s ! i) s))"
  by (simp add: step_def case_prod_beta Let_def)

lemma pc_after_step:
  assumes "i < length (threads s)"
  shows "pc (threads (step sine i s) ! i) =
           (case pc (threads s ! i) of
              Setup \<Rightarrow>
                (let ps = play_samples_of (params s) (samplerate s);
                     cs = cycle_samples_of (params s) (samplerate s)
                 in if cs < ps then Crashed ValueError
                    else case too_big (heap_frames s) (cs - ps) of
                      Some e \<Rightarrow> Crashed e | None \<Rightarrow> LoopHead)
            | LoopHead \<Rightarrow> if stop_evt s then Finished else ToneReady
            | ToneReady \<Rightarrow>
                (case too_big (heap_frames s) (play_samples (threads s ! i)) of
                   Some e \<Rightarrow> Crashed e | None \<Rightarrow> Playing)
            | Playing \<Rightarrow> Idling (idle_ticks (params s))
            | Idling k \<Rightarrow> (case k of 0 \<Rightarrow> LoopHead
                           | Suc j \<Rightarrow> if stop_evt s then LoopHead else Idling j)
            | Finished \<Rightarrow> Finished
            | Crashed e \<Rightarrow> Crashed e)"
  by (simp add: step_nth [OF assms] run_step_def Let_def update_status_def
        update_tray_tooltip_def sd_play_def split: pc.splits nat.splits option.splits)

lemma steps_globals:
  "stop_evt (steps sine is s) = stop_evt s"
  "params (steps sine is s) = params s"
  "length (threads (steps sine is s)) = length (threads s)"
  by (induction "is" arbitrary: s) (simp_all add: step_globals)

lemma idle_countdown:
  assumes "i < length (threads s)" "pc (threads s ! i) = Idling k" "\<not> stop_evt s" "m \<le> k"
  shows "pc (threads (steps sine (replicate m i) s) ! i) = Idling (k - m)"
  using assms
proof (induction m arbitrary: s k)
  case 0
  then show ?case by simp
next
  case (Suc m)
  from Suc.prems obtain j where j: "k = Suc j" by (cases k) auto
  have a: "pc (threads (step sine i s) ! i) = Idling j"
    using Suc.prems j by (simp add: pc_after_step)
  have b: "i < length (threads (step sine i s))" "\<not> stop_evt (step sine i s)" "m \<le> j"
    using Suc.prems j by (simp_all add: step_globals)
  have "pc (threads (steps sine (replicate m i) (step sine i s)) ! i) = Idling (j - m)"
    by (rule Suc.IH [OF b(1) a b(2) b(3)])
  then show ?case using j by simp
qed

text \<open>
  The idle wait: when the tone ends the thread enters it with the ticks read at that
  moment; while the event is clear each tick takes one off the count; a tick that finds
  the event set leaves the wait, and so does an exhausted count.
\<close>

lemma idle_wait_ticks:
  assumes "i < length (threads s)"
  shows "(pc (threads s ! i) = Playing \<longrightarrow>
            pc (threads (step sine i s) ! i) = Idling (idle_ticks (params s))) \<and>
         (pc (threads s ! i) = Idling k \<and> \<not> stop_evt s \<and> m \<le> k \<longrightarrow>
            pc (threads (steps sine (replicate m i) s) ! i) = Idling (k - m)) \<and>
         (pc (threads s ! i) = Idling k \<and> stop_evt s \<longrightarrow>
            pc (threads (step sine i s) ! i) = LoopHead) \<and>
         (pc (threads s ! i) = Idling 0 \<longrightarrow> pc (threads (step sine i s) ! i) = LoopHead)"
  using assms idle_countdown [of i s k m sine]
  by (auto simp: pc_after_step split: nat.splits)

text \<open>The equations that evaluate a concrete run.\<close>

lemmas run_defs = initial_def start_def running_def step_def run_step_def new_thread_def
  Let_def stop_def sd_play_def update_status_def update_tray_tooltip_def alive_def too_big_def

lemma default_counts:
  "play_samples_of DEFAULT 44100 = 44100" "cycle_samples_of DEFAULT 44100 = 2646000"
  "idle_ticks DEFAULT = 59"
  by (simp_all add: play_samples_of_def cycle_samples_of_def idle_ticks_def DEFAULT_def
        py_int_def fl_eval)

lemma short_tone_counts:
  "cycle_samples_of short_tone 44100 = 220500" "idle_ticks short_tone = 4"
  by (simp_all add: play_samples_of_def cycle_samples_of_def idle_ticks_def short_tone_def
        py_int_def fl_eval)

lemma odd_cycle_counts:
  "play_samples_of odd_cycle 44100 = 44100" "cycle_samples_of odd_cycle 44100 = 66150"
  "idle_ticks odd_cycle = 0"
  by (simp_all add: play_samples_of_def cycle_samples_of_def idle_ticks_def odd_cycle_def
        py_int_def fl_eval)

text \<open>
  C5 at a concrete run. With a tone of 1 s in a cycle of 1.5 s the idle wait should last
  half a second. The thread enters the wait with no tick left, and its next tone starts
  with no wait at all after the silence was handed to the device, although line 63 built
  that silence with 22050 frames, half a second.
\<close>

theorem idle_wait_cut:
  "cycle_sec odd_cycle - play_sec odd_cycle = 1 / 2 \<and>
   pc (threads (steps lib_sin [0, 0, 0, 0] (start (initial odd_cycle 44100 Absent))) ! 0)
     = Idling 0 \<and>
   trace (steps lib_sin [0, 0, 0, 0, 0, 0, 0] (start (initial odd_cycle 44100 Absent)))
     = [PlayTone (gen_sig lib_sin odd_cycle 44100 44100),
        PlaySilence (replicate 22050 (0, 0)),
        PlayTone (gen_sig lib_sin odd_cycle 44100 44100)]"
proof -
  have "cycle_sec odd_cycle - play_sec odd_cycle = 1 / 2" by (simp add: odd_cycle_def)
  moreover have "pc (threads (steps lib_sin [0, 0, 0, 0]
      (start (initial odd_cycle 44100 Absent))) ! 0) = Idling 0"
    by (simp add: run_defs odd_cycle_counts)
  moreover have "trace (steps lib_sin [0, 0, 0, 0, 0, 0, 0]
      (start (initial odd_cycle 44100 Absent)))
     = [PlayTone (gen_sig lib_sin odd_cycle 44100 44100),
        PlaySilence (replicate 22050 (0, 0)),
        PlayTone (gen_sig lib_sin odd_cycle 44100 44100)]"
    by (simp add: run_defs odd_cycle_counts)
  ultimately show ?thesis by simp
qed

text \<open>
  The binary64 difference decides the count: 1.4 - 0.4 falls just below 1 and gives no
  tick, 5.1 - 0.1 gives 5. So does the binary64 product for the length of the tone.
\<close>

lemma tick_examples:
  "idle_ticks \<lparr>frequency = 440, volume = b64 (1 / 5), play_sec = b64 (4 / 10),
                cycle_sec = b64 (14 / 10)\<rparr> = 0"
  "idle_ticks \<lparr>frequency = 440, volume = b64 (1 / 5), play_sec = b64 (1 / 10),
                cycle_sec = b64 (51 / 10)\<rparr> = 5"
  by (simp_all add: idle_ticks_def py_int_def fl_eval)

lemma count_examples:
  "play_samples_of \<lparr>frequency = 440, volume = b64 (1 / 5), play_sec = b64 (35 / 100),
                     cycle_sec = 5\<rparr> 44100 = 15434"
  "play_samples_of \<lparr>frequency = 440, volume = b64 (1 / 5), play_sec = b64 (3 / 10),
                     cycle_sec = 5\<rparr> 44100 = 13230"
  "play_samples_of \<lparr>frequency = 440, volume = b64 (1 / 5), play_sec = b64 (35 / 100),
                     cycle_sec = 5\<rparr> 8000 = 2800"
  by (simp_all add: play_samples_of_def py_int_def fl_eval)

subsection \<open>What an update enforces\<close>


lemma initial_fields:
  "samplerate (initial p fs f) = fs" "params (initial p fs f) = p"
  "param_file (initial p fs f) = f" "threads (initial p fs f) = []"
  by (simp_all add: initial_def)





text \<open>
  C6, as amended. An accepted update stores the frequency as typed, the volume clamped
  into \<open>[0, 1]\<close> and each duration raised to 0.1 at least, and saves the result. An
  update whose frequency text is rejected changes nothing, and no rejected update reaches
  the parameter file.
\<close>

theorem update_outcome:
  "(accepted flt e \<longrightarrow>
      params (apply_params flt e s) =
        \<lparr>frequency = the (flt (freq_ent e)),
         volume = max 0 (min 1 (the (flt (vol_ent e)))),
         play_sec = max (b64 (1 / 10)) (the (flt (play_ent e))),
         cycle_sec = max (b64 (1 / 10)) (the (flt (cycle_ent e)))\<rparr> \<and>
      param_file (apply_params flt e s) = Content (dump (params (apply_params flt e s)))) \<and>
   (flt (freq_ent e) = None \<longrightarrow> apply_params flt e s = s) \<and>
   (\<not> accepted flt e \<longrightarrow> param_file (apply_params flt e s) = param_file s)"
  by (simp add: apply_params_accepted apply_params_first_rejected apply_params_rejected_file)

theorem update_outcome_witness:
  "params (apply_params typed_float (entered ''440'' ''1.5'' ''0.001'' ''60'')
             (initial DEFAULT 44100 Absent))
     = \<lparr>frequency = 440, volume = 1, play_sec = b64 (1 / 10), cycle_sec = 60\<rparr> \<and>
   apply_params typed_float (entered ''abc'' ''0.2'' ''1'' ''60'') (initial DEFAULT 44100 Absent)
     = initial DEFAULT 44100 Absent \<and>
   param_file (apply_params typed_float (entered ''880'' ''0.2'' ''abc'' ''60'')
                 (initial DEFAULT 44100 Absent)) = Absent"
proof -
  let ?s = "initial DEFAULT 44100 Absent"
  have a: "accepted typed_float (entered ''440'' ''1.5'' ''0.001'' ''60'')"
    by (simp add: accepted_def typed_float_def entered_def)
  have b: "typed_float (freq_ent (entered ''abc'' ''0.2'' ''1'' ''60'')) = None"
    by (simp add: typed_float_def entered_def)
  have c: "\<not> accepted typed_float (entered ''880'' ''0.2'' ''abc'' ''60'')"
    by (simp add: accepted_def typed_float_def entered_def)
  have m: "max (b64 (1 / 10)) (b64 (1 / 1000)) = b64 (1 / 10)" "max (b64 (1 / 10)) 60 = 60"
    by (simp_all add: b64_values)
  from update_outcome [of typed_float "entered ''440'' ''1.5'' ''0.001'' ''60''" ?s] a
  have 1: "params (apply_params typed_float (entered ''440'' ''1.5'' ''0.001'' ''60'') ?s)
             = \<lparr>frequency = 440, volume = 1, play_sec = b64 (1 / 10), cycle_sec = 60\<rparr>"
    by (simp add: typed_float_def entered_def m)
  from update_outcome [of typed_float "entered ''abc'' ''0.2'' ''1'' ''60''" ?s] b
  have 2: "apply_params typed_float (entered ''abc'' ''0.2'' ''1'' ''60'') ?s = ?s"
    by blast
  from update_outcome [of typed_float "entered ''880'' ''0.2'' ''abc'' ''60''" ?s] c
  have 3: "param_file (apply_params typed_float (entered ''880'' ''0.2'' ''abc'' ''60'') ?s) = Absent"
    by (simp add: initial_def)
  from 1 2 3 show ?thesis by simp
qed

text \<open>
  C6 as stated fails: a volume of 1.5 is not rejected, it is stored as 1.
\<close>

theorem amplitude_not_rejected_counterexample:
  "volume (params (apply_params typed_float (entered ''440'' ''1.5'' ''1'' ''60'')
                     (initial DEFAULT 44100 Absent)))
     \<noteq> volume (params (initial DEFAULT 44100 Absent))"
  by (simp add: apply_params_def typed_float_def entered_def save_params_def initial_def
        DEFAULT_def b64_values)

text \<open>
  An update rejected at its third field has already written the first two: the shared
  parameters hold the new frequency and volume although nothing was saved.
\<close>

lemma later_field_rejected:
  "params (apply_params typed_float (entered ''880'' ''0.2'' ''abc'' ''60'')
             (initial DEFAULT 44100 Absent))
     = \<lparr>frequency = 880, volume = b64 (1 / 5), play_sec = 1, cycle_sec = 60\<rparr>"
  by (simp add: apply_params_def typed_float_def entered_def initial_def DEFAULT_def b64_values)

subsection \<open>Loading the parameters\<close>

lemma load_field_obj:
  "load_field flt (JObj kvs) k d =
     (case map_of kvs k of None \<Rightarrow> Inr d | Some v \<Rightarrow> py_float flt v)"
  by (simp add: load_field_def split: option.splits)

lemma params_eq_iff:
  "(\<lparr>frequency = a, volume = b, play_sec = c, cycle_sec = d\<rparr> = (p::params)) \<longleftrightarrow>
     a = frequency p \<and> b = volume p \<and> c = play_sec p \<and> d = cycle_sec p"
  by (cases p) auto

lemma load_params_obj:
  "load_params flt (Content (JObj kvs)) = Inr p \<longleftrightarrow>
     load_field flt (JObj kvs) ''frequency'' (frequency DEFAULT) = Inr (frequency p) \<and>
     load_field flt (JObj kvs) ''volume'' (volume DEFAULT) = Inr (volume p) \<and>
     load_field flt (JObj kvs) ''play_sec'' (play_sec DEFAULT) = Inr (play_sec p) \<and>
     load_field flt (JObj kvs) ''cycle_sec'' (cycle_sec DEFAULT) = Inr (cycle_sec p)"
  by (auto simp: load_params_def params_eq_iff split: sum.splits)

text \<open>An int of 2^1024 or more is too large for binary64.\<close>

lemma b64_ge_pow:
  assumes "2 powi k \<le> x" "- 1022 \<le> k"
  shows "2 powi k \<le> b64 x"
proof -
  have e: "expo (2 powi k) \<le> k"
  proof (rule ccontr)
    assume "\<not> expo (2 powi k) \<le> k"
    then have "k + 1 \<le> expo (2 powi k)" by simp
    then have "(2::real) powi (k + 1) \<le> 2 powi expo (2 powi k)"
      by (intro power_int_increasing) simp_all
    moreover have "(2::real) powi k < 2 powi (k + 1)"
      by (intro power_int_strict_increasing) simp_all
    ultimately show False using expo_bounds [of "2 powi k"] by simp
  qed
  have "uexp 53 (- 1022) (2 powi k) \<le> k" using e assms(2) by (simp add: uexp_def)
  then have "2 powi k \<le> fl 53 (- 1022) (2 powi k)" by (intro grid_ge) simp_all
  also have "\<dots> \<le> fl 53 (- 1022) x" using assms(1) by (intro fl_mono) simp_all
  finally show ?thesis by (simp add: b64_def)
qed

lemma huge_int_overflows:
  assumes "2 ^ 1024 \<le> n"
  shows "py_float flt (JInt n) = Inl OverflowError"
proof -
  have "(2::real) powi 1024 \<le> of_int n"
    using assms of_int_le_iff [of "2 ^ 1024" n, where ?'a = real] by simp
  then have "2 powi 1024 \<le> b64 (of_int n)" by (rule b64_ge_pow) simp
  then have "\<not> finite64 (b64 (of_int n))" by (simp add: finite64_def)
  then show ?thesis by simp
qed

lemma b64_880: "b64 880 = 880"
  by (simp add: fl_eval)

text \<open>
  C8, as amended. An absent file gives the defaults; a file that \<open>json.load\<close> cannot
  read makes the load fail. For a file holding an object, each missing field takes its
  own default and each present field is converted by \<open>float\<close>; the load returns a
  config exactly when every present field converts, and that config holds the converted
  values.
\<close>

theorem load_outcome:
  "load_params flt Absent = Inr DEFAULT \<and>
   load_params flt Unparsable = Inl JSONDecodeError \<and>
   (load_params flt (Content (JObj kvs)) = Inr p \<longleftrightarrow>
      (\<forall>(k, field) \<in> set [(''frequency'', frequency), (''volume'', volume),
                            (''play_sec'', play_sec), (''cycle_sec'', cycle_sec)].
         (case map_of kvs k of None \<Rightarrow> Inr (field DEFAULT) | Some v \<Rightarrow> py_float flt v)
           = Inr (field p))) \<and>
   ((\<exists>q. load_params flt (Content (JObj kvs)) = Inr q) \<longleftrightarrow>
      (\<forall>k \<in> set [''frequency'', ''volume'', ''play_sec'', ''cycle_sec''].
         \<forall>v. map_of kvs k = Some v \<longrightarrow> (\<exists>r. py_float flt v = Inr r)))"
proof -
  have 1: "load_params flt Absent = Inr DEFAULT" "load_params flt Unparsable = Inl JSONDecodeError"
    by (simp_all add: load_params_def)
  have 2: "load_params flt (Content (JObj kvs)) = Inr p \<longleftrightarrow>
      (\<forall>(k, field) \<in> set [(''frequency'', frequency), (''volume'', volume),
                            (''play_sec'', play_sec), (''cycle_sec'', cycle_sec)].
         (case map_of kvs k of None \<Rightarrow> Inr (field DEFAULT) | Some v \<Rightarrow> py_float flt v)
           = Inr (field p))" for p
    by (simp add: load_params_obj load_field_obj)
  have 3: "(\<exists>q. load_params flt (Content (JObj kvs)) = Inr q) \<longleftrightarrow>
      (\<forall>k \<in> set [''frequency'', ''volume'', ''play_sec'', ''cycle_sec''].
         \<forall>v. map_of kvs k = Some v \<longrightarrow> (\<exists>r. py_float flt v = Inr r))"
  proof
    assume "\<exists>q. load_params flt (Content (JObj kvs)) = Inr q"
    then obtain q where "load_params flt (Content (JObj kvs)) = Inr q" ..
    then show "\<forall>k \<in> set [''frequency'', ''volume'', ''play_sec'', ''cycle_sec''].
         \<forall>v. map_of kvs k = Some v \<longrightarrow> (\<exists>r. py_float flt v = Inr r)"
      by (auto simp: load_params_obj load_field_obj)
  next
    assume a: "\<forall>k \<in> set [''frequency'', ''volume'', ''play_sec'', ''cycle_sec''].
         \<forall>v. map_of kvs k = Some v \<longrightarrow> (\<exists>r. py_float flt v = Inr r)"
    have f: "\<exists>r. load_field flt (JObj kvs) k d = Inr r"
      if "k \<in> set [''frequency'', ''volume'', ''play_sec'', ''cycle_sec'']" for k d
      using a that by (cases "map_of kvs k") (auto simp: load_field_obj)
    obtain a b c d where
      "load_field flt (JObj kvs) ''frequency'' (frequency DEFAULT) = Inr a"
      "load_field flt (JObj kvs) ''volume'' (volume DEFAULT) = Inr b"
      "load_field flt (JObj kvs) ''play_sec'' (play_sec DEFAULT) = Inr c"
      "load_field flt (JObj kvs) ''cycle_sec'' (cycle_sec DEFAULT) = Inr d"
      using f [of "''frequency''"] f [of "''volume''"] f [of "''play_sec''"] f [of "''cycle_sec''"]
      by (meson list.set_intros)
    then have "load_params flt (Content (JObj kvs))
                 = Inr \<lparr>frequency = a, volume = b, play_sec = c, cycle_sec = d\<rparr>"
      by (simp add: load_params_obj)
    then show "\<exists>q. load_params flt (Content (JObj kvs)) = Inr q" ..
  qed
  from 1 2 3 show ?thesis by blast
qed

theorem load_outcome_witness:
  "load_params typed_float (Content (JObj [(''frequency'', JInt 880), (''volume'', JStr ''0.2'')]))
     = Inr \<lparr>frequency = 880, volume = b64 (1 / 5), play_sec = 1, cycle_sec = 60\<rparr>"
proof -
  have "\<forall>(k, field) \<in> set [(''frequency'', frequency), (''volume'', volume),
                            (''play_sec'', play_sec), (''cycle_sec'', cycle_sec)].
         (case map_of [(''frequency'', JInt 880), (''volume'', JStr ''0.2'')] k of
            None \<Rightarrow> Inr (field DEFAULT) | Some v \<Rightarrow> py_float typed_float v)
           = Inr (field \<lparr>frequency = 880, volume = b64 (1 / 5), play_sec = 1, cycle_sec = 60\<rparr>)"
    by (simp add: DEFAULT_def typed_float_def b64_880 finite64_def)
  with load_outcome [of typed_float "[(''frequency'', JInt 880), (''volume'', JStr ''0.2'')]"
         "\<lparr>frequency = 880, volume = b64 (1 / 5), play_sec = 1, cycle_sec = 60\<rparr>"]
  show ?thesis by blast
qed

text \<open>
  C8 as stated fails: an unreadable file does not give the defaults, and one field that
  does not convert (a null, a text that is no number, an int beyond the binary64 range)
  fails the whole load.
\<close>

theorem load_fails_counterexample:
  "load_params typed_float Unparsable \<noteq> Inr DEFAULT \<and>
   load_params typed_float (Content (JObj [(''frequency'', JInt 880), (''volume'', JNull)]))
     = Inl TypeError \<and>
   load_params typed_float (Content (JObj [(''frequency'', JStr ''abc'')])) = Inl ValueError \<and>
   load_params typed_float (Content (JObj [(''frequency'', JInt (10 ^ 400))]))
     = Inl OverflowError"
proof -
  have "(2::int) ^ 1024 \<le> 10 ^ 400" by simp
  then have "py_float typed_float (JInt (10 ^ 400)) = Inl OverflowError"
    by (rule huge_int_overflows)
  then show ?thesis
    by (simp add: load_params_def load_field_def DEFAULT_def typed_float_def b64_880
          finite64_def)
qed

text \<open>Without a parameter file the program starts from the defaults.\<close>

lemma boot_absent: "boot flt Absent fs = Inr (initial DEFAULT fs Absent)"
  by (simp add: boot_def load_params_def)

subsection \<open>After the event is set\<close>

lemma alive_steps_left: "alive t \<longleftrightarrow> steps_left (pc t) \<noteq> 0"
  by (cases "pc t") (simp_all add: alive_def)

lemma apply_params_globals:
  "stop_evt (apply_params flt e s) = stop_evt s"
  "threads (apply_params flt e s) = threads s"
  "trace (apply_params flt e s) = trace s"
  "left_lbl (apply_params flt e s) = left_lbl s"
  "right_lbl (apply_params flt e s) = right_lbl s"
  "samplerate (apply_params flt e s) = samplerate s"
  "device (apply_params flt e s) = device s"
  by (simp_all add: apply_params_def save_params_def Let_def split: option.splits)

lemma perform_keeps_flag:
  "\<not> restarts a \<Longrightarrow> stop_evt s \<Longrightarrow> stop_evt (perform flt sine a s)"
  by (cases a) (simp_all add: stop_def apply_params_globals step_globals)

lemma perform_keeps_length:
  "\<not> restarts a \<Longrightarrow> length (threads (perform flt sine a s)) = length (threads s)"
  by (cases a) (simp_all add: stop_def apply_params_globals step_globals)

lemma step_left:
  assumes "stop_evt s" "i < length (threads s)"
  shows "steps_left (pc (threads (step sine i s) ! i)) \<le> steps_left (pc (threads s ! i)) - 1"
  using assms by (simp add: pc_after_step Let_def split: pc.splits nat.splits option.splits)

lemma perform_left:
  assumes "\<not> restarts a" "stop_evt s" "i < length (threads s)"
  shows "steps_left (pc (threads (perform flt sine a s) ! i))
           \<le> steps_left (pc (threads s ! i)) - (if a = Step i then 1 else 0)"
proof (cases a)
  case (Step j)
  show ?thesis
  proof (cases "j = i")
    case True
    with Step step_left [OF assms(2,3), of sine] show ?thesis by simp
  next
    case False
    with Step show ?thesis by (simp add: step_nth_other)
  qed
qed (use assms in \<open>simp_all add: stop_def apply_params_globals\<close>)

lemma exec_flagged:
  assumes "list_all (\<lambda>a. \<not> restarts a) as" "stop_evt s"
  shows "stop_evt (exec flt sine as s)"
    and "length (threads (exec flt sine as s)) = length (threads s)"
  using assms
  by (induction as arbitrary: s) (simp_all add: perform_keeps_flag perform_keeps_length)

lemma exec_left:
  assumes "list_all (\<lambda>a. \<not> restarts a) as" "stop_evt s" "i < length (threads s)"
  shows "steps_left (pc (threads (exec flt sine as s) ! i))
           \<le> steps_left (pc (threads s ! i)) - count_list as (Step i)"
  using assms
proof (induction as arbitrary: s)
  case Nil
  then show ?case by simp
next
  case (Cons a as)
  let ?s = "perform flt sine a s"
  from Cons.prems have na: "\<not> restarts a" and nas: "list_all (\<lambda>a. \<not> restarts a) as"
    by simp_all
  have f: "stop_evt ?s" using na Cons.prems(2) by (rule perform_keeps_flag)
  have l: "i < length (threads ?s)" using na Cons.prems(3) by (simp add: perform_keeps_length)
  have "steps_left (pc (threads (exec flt sine as ?s) ! i))
          \<le> steps_left (pc (threads ?s ! i)) - count_list as (Step i)"
    by (rule Cons.IH [OF nas f l])
  also have "\<dots> \<le> (steps_left (pc (threads s ! i)) - (if a = Step i then 1 else 0))
                     - count_list as (Step i)"
    using perform_left [OF na Cons.prems(2,3), of flt sine] by (rule diff_le_mono)
  also have "\<dots> = steps_left (pc (threads s ! i)) - count_list (a # as) (Step i)"
    by simp
  finally show ?case by simp
qed

lemma steps_left_le_4: "steps_left c \<le> 4"
  by (cases c) simp_all

lemma flagged_run_ends:
  assumes "list_all (\<lambda>a. \<not> restarts a) as" "stop_evt s" "i < length (threads s)"
    "4 \<le> count_list as (Step i)"
  shows "\<not> alive (threads (exec flt sine as s) ! i)"
proof -
  have "steps_left (pc (threads (exec flt sine as s) ! i))
          \<le> steps_left (pc (threads s ! i)) - count_list as (Step i)"
    by (rule exec_left [OF assms(1-3)])
  also have "\<dots> = 0" using steps_left_le_4 [of "pc (threads s ! i)"] assms(4) by simp
  finally show ?thesis by (simp add: alive_steps_left)
qed

lemma filter_update_count:
  "i < length xs \<Longrightarrow>
     length (filter P (xs[i := y])) + (if P (xs ! i) then 1 else 0)
       = length (filter P xs) + (if P y then 1 else 0)"
proof (induction xs arbitrary: i)
  case Nil
  then show ?case by simp
next
  case (Cons x xs)
  then show ?case by (cases i) auto
qed

text \<open>
  With the event set, a step starts a tone only by taking a thread out of \<open>ToneReady\<close>,
  and a silence only by taking one out of \<open>Playing\<close>; no step puts a thread into
  \<open>ToneReady\<close>.
\<close>

lemma step_flagged_counts:
  assumes "stop_evt s"
  shows "n_tone (step sine i s) + n_ready (step sine i s) \<le> n_tone s + n_ready s"
    and "n_silence (step sine i s) + n_sounding (step sine i s) \<le> n_silence s + n_sounding s"
proof -
  have "n_tone (step sine i s) + n_ready (step sine i s) \<le> n_tone s + n_ready s \<and>
        n_silence (step sine i s) + n_sounding (step sine i s) \<le> n_silence s + n_sounding s"
  proof (cases "i < length (threads s)")
    case False
    then show ?thesis by (simp add: step_def)
  next
    case True
    let ?t = "threads s ! i"
    let ?r = "run_step sine ?t s"
    let ?R = "\<lambda>t. pc t = ToneReady"
    let ?S = "\<lambda>t. pc t = ToneReady \<or> pc t = Playing"
    have th: "threads (step sine i s) = (threads s)[i := fst ?r]"
      using True run_step_globals(4) [of sine ?t s] by (simp add: step_def case_prod_beta Let_def)
    have tr: "trace (step sine i s) = trace (snd ?r)"
      using True by (rule step_trace)
    have c1: "n_ready (step sine i s) + (if ?R ?t then 1 else 0)
               = n_ready s + (if ?R (fst ?r) then 1 else 0)"
      unfolding n_ready_def th using True by (rule filter_update_count)
    have c2: "n_sounding (step sine i s) + (if ?S ?t then 1 else 0)
               = n_sounding s + (if ?S (fst ?r) then 1 else 0)"
      unfolding n_sounding_def th using True by (rule filter_update_count)
    have d1: "n_tone (step sine i s) + (if ?R (fst ?r) then 1 else 0)
               \<le> n_tone s + (if ?R ?t then 1 else 0)"
      unfolding n_tone_def tr using assms
      by (simp add: run_step_def Let_def sd_play_def update_status_def
            update_tray_tooltip_def split: pc.splits nat.splits option.splits)
    have d2: "n_silence (step sine i s) + (if ?S (fst ?r) then 1 else 0)
               \<le> n_silence s + (if ?S ?t then 1 else 0)"
      unfolding n_silence_def tr using assms
      by (simp add: run_step_def Let_def sd_play_def update_status_def
            update_tray_tooltip_def split: pc.splits nat.splits option.splits)
    from c1 d1 have "n_tone (step sine i s) + n_ready (step sine i s) \<le> n_tone s + n_ready s"
      by (simp split: if_splits)
    moreover from c2 d2
    have "n_silence (step sine i s) + n_sounding (step sine i s) \<le> n_silence s + n_sounding s"
      by (simp split: if_splits)
    ultimately show ?thesis by simp
  qed
  then show "n_tone (step sine i s) + n_ready (step sine i s) \<le> n_tone s + n_ready s"
    and "n_silence (step sine i s) + n_sounding (step sine i s) \<le> n_silence s + n_sounding s"
    by simp_all
qed

lemma perform_flagged_counts:
  assumes "\<not> restarts a" "stop_evt s"
  shows "n_tone (perform flt sine a s) + n_ready (perform flt sine a s) \<le> n_tone s + n_ready s"
    and "n_silence (perform flt sine a s) + n_sounding (perform flt sine a s)
           \<le> n_silence s + n_sounding s"
proof -
  show "n_tone (perform flt sine a s) + n_ready (perform flt sine a s) \<le> n_tone s + n_ready s"
  proof (cases a)
    case (Step j)
    with assms show ?thesis by (simp add: step_flagged_counts)
  qed (use assms in \<open>simp_all add: n_tone_def n_ready_def stop_def apply_params_globals\<close>)
  show "n_silence (perform flt sine a s) + n_sounding (perform flt sine a s)
           \<le> n_silence s + n_sounding s"
  proof (cases a)
    case (Step j)
    with assms show ?thesis by (simp add: step_flagged_counts)
  qed (use assms in \<open>simp_all add: n_silence_def n_sounding_def stop_def apply_params_globals\<close>)
qed

lemma exec_flagged_counts:
  assumes "list_all (\<lambda>a. \<not> restarts a) as" "stop_evt s"
  shows "n_tone (exec flt sine as s) + n_ready (exec flt sine as s) \<le> n_tone s + n_ready s"
    and "n_silence (exec flt sine as s) + n_sounding (exec flt sine as s)
           \<le> n_silence s + n_sounding s"
proof -
  have "n_tone (exec flt sine as s) + n_ready (exec flt sine as s) \<le> n_tone s + n_ready s \<and>
        n_silence (exec flt sine as s) + n_sounding (exec flt sine as s)
           \<le> n_silence s + n_sounding s"
    using assms
  proof (induction as arbitrary: s)
    case Nil
    then show ?case by simp
  next
    case (Cons a as)
    from Cons.prems have na: "\<not> restarts a" and nas: "list_all (\<lambda>a. \<not> restarts a) as"
      by simp_all
    note ih = Cons.IH [OF nas perform_keeps_flag [OF na Cons.prems(2)], of flt sine]
    note st = perform_flagged_counts [OF na Cons.prems(2), of flt sine]
    from ih st show ?case by simp
  qed
  then show "n_tone (exec flt sine as s) + n_ready (exec flt sine as s) \<le> n_tone s + n_ready s"
    and "n_silence (exec flt sine as s) + n_sounding (exec flt sine as s)
           \<le> n_silence s + n_sounding s"
    by simp_all
qed

lemma one_loop_sounding: "one_loop s \<Longrightarrow> n_ready s \<le> n_sounding s \<and> n_sounding s \<le> 1"
proof -
  assume a: "one_loop s"
  show ?thesis
  proof (cases "threads s" rule: rev_cases)
    case Nil
    then show ?thesis by (simp add: n_ready_def n_sounding_def)
  next
    case (snoc ts t)
    with a have "list_all (\<lambda>t. \<not> alive t) ts" by (simp add: one_loop_def)
    then have "filter (\<lambda>t. pc t = ToneReady \<or> pc t = Playing) ts = []"
      "filter (\<lambda>t. pc t = ToneReady) ts = []"
      by (auto simp: list_all_iff filter_empty_conv alive_def)
    with snoc show ?thesis by (simp add: n_ready_def n_sounding_def)
  qed
qed

subsection \<open>start and stop\<close>

lemma running_iff: "running s \<longleftrightarrow> threads s \<noteq> [] \<and> alive (last (threads s))"
  by (cases "threads s") (simp_all add: running_def)

lemma stop_idem: "stop (stop s) = stop s"
  by (simp add: stop_def)

lemma running_start: "running (start s)"
  by (simp add: start_def running_iff new_thread_def alive_def)

lemma start_idem: "start (start s) = start s"
  using running_start [of s] by (simp add: start_def [of "start s"])

lemma start_running: "running s \<Longrightarrow> start s = s"
  by (simp add: start_def)

lemma dead_stays_dead:
  "\<not> alive (threads s ! j) \<Longrightarrow> \<not> alive (threads (step sine i s) ! j)"
proof (cases "j = i \<and> i < length (threads s)")
  case True
  assume "\<not> alive (threads s ! j)"
  with True show ?thesis
    by (auto simp: alive_steps_left pc_after_step split: pc.splits)
next
  case False
  assume d: "\<not> alive (threads s ! j)"
  show ?thesis
  proof (cases "j = i")
    case True
    with False d show ?thesis by (simp add: step_def)
  next
    case False
    with d show ?thesis by (simp add: step_nth_other)
  qed
qed

lemma one_loop_nth:
  "one_loop s \<longleftrightarrow> (\<forall>j. Suc j < length (threads s) \<longrightarrow> \<not> alive (threads s ! j))"
  by (auto simp: one_loop_def list_all_length nth_butlast)

lemma one_loop_step: "one_loop s \<Longrightarrow> one_loop (step sine i s)"
  by (simp add: one_loop_nth step_globals dead_stays_dead)

lemma one_loop_all_dead:
  assumes "one_loop s" "\<not> running s"
  shows "list_all (\<lambda>t. \<not> alive t) (threads s)"
proof (cases "threads s" rule: rev_cases)
  case Nil
  then show ?thesis by simp
next
  case (snoc ts t)
  with assms show ?thesis by (simp add: one_loop_def running_iff)
qed

lemma one_loop_start: "one_loop s \<Longrightarrow> one_loop (start s)"
  using one_loop_all_dead [of s] by (auto simp: start_def one_loop_def)

lemma one_loop_perform: "one_loop s \<Longrightarrow> one_loop (perform flt sine a s)"
  by (cases a)
     (simp_all add: one_loop_start one_loop_step toggle_play_def,
      simp_all add: one_loop_def stop_def apply_params_globals)

lemma one_loop_exec: "one_loop s \<Longrightarrow> one_loop (exec flt sine as s)"
  by (induction as arbitrary: s) (simp_all add: one_loop_perform)

lemma one_loop_initial: "one_loop (initial p fs f)"
  by (simp add: one_loop_def initial_def)

lemma one_loop_count:
  assumes "one_loop s"
  shows "running_loops s = (if running s then 1 else 0)"
proof (cases "threads s" rule: rev_cases)
  case Nil
  then show ?thesis by (simp add: running_loops_def running_iff)
next
  case (snoc ts t)
  with assms have "filter alive ts = []"
    by (auto simp: one_loop_def list_all_iff filter_empty_conv)
  with snoc show ?thesis by (simp add: running_loops_def running_iff)
qed

lemma running_stop: "running (stop s) = running s"
  by (simp add: running_iff stop_def)

lemma initial_trace:
  "trace (initial p fs f) = []" "stop_evt (initial p fs f) = False"
  "heap_frames (initial p fs f) = 2 ^ 32"
  by (simp_all add: initial_def)

lemma ready_state:
  "steps lib_sin [0, 0] (start (initial DEFAULT 44100 Absent))
     = (initial DEFAULT 44100 Absent)
         \<lparr>threads := [\<lparr>pc = ToneReady, play_samples = 44100, cycle_samples = 2646000,
                        silence = replicate 2601900 (0, 0)\<rparr>]\<rparr>"
  by (simp add: run_defs default_counts)

lemma playing_state:
  "steps lib_sin [0, 0, 0] (start (initial DEFAULT 44100 Absent))
     = (initial DEFAULT 44100 Absent)
         \<lparr>threads := [\<lparr>pc = Playing, play_samples = 44100, cycle_samples = 2646000,
                        silence = replicate 2601900 (0, 0)\<rparr>],
           device := Sounding (gen_sig lib_sin DEFAULT 44100 44100),
           trace := [PlayTone (gen_sig lib_sin DEFAULT 44100 44100)]\<rparr>"
  by (simp add: run_defs default_counts)

text \<open>
  C1, as amended. \<open>stop\<close> sets the event and silences the device, and returns without
  waiting: the threads stand where they stood. From then on, while nothing calls
  \<open>start\<close>, at most one tone is started (by a thread that had passed the test of line
  65 already) and at most one silence, and each thread has ended once it has taken four
  steps.
\<close>

theorem stop_effect:
  assumes "list_all (\<lambda>a. \<not> restarts a) as" and "one_loop s"
  shows "threads (stop s) = threads s \<and> stop_evt (stop s) \<and> device (stop s) = Quiet \<and>
         n_tone (exec flt sine as (stop s)) \<le> n_tone s + n_ready s \<and> n_ready s \<le> 1 \<and>
         n_silence (exec flt sine as (stop s)) \<le> n_silence s + n_sounding s \<and>
         n_sounding s \<le> 1 \<and>
         (i < length (threads s) \<and> 4 \<le> count_list as (Step i) \<longrightarrow>
            \<not> alive (threads (exec flt sine as (stop s)) ! i))"
proof -
  have f: "stop_evt (stop s)" and t: "threads (stop s) = threads s"
    and d: "device (stop s) = Quiet" and tr: "trace (stop s) = trace s"
    by (simp_all add: stop_def)
  have "n_tone (exec flt sine as (stop s)) + n_ready (exec flt sine as (stop s))
          \<le> n_tone (stop s) + n_ready (stop s)"
    by (rule exec_flagged_counts(1) [OF assms(1) f])
  then have tones: "n_tone (exec flt sine as (stop s)) \<le> n_tone s + n_ready s"
    by (simp add: n_tone_def n_ready_def t tr)
  have "n_silence (exec flt sine as (stop s)) + n_sounding (exec flt sine as (stop s))
          \<le> n_silence (stop s) + n_sounding (stop s)"
    by (rule exec_flagged_counts(2) [OF assms(1) f])
  then have sil: "n_silence (exec flt sine as (stop s)) \<le> n_silence s + n_sounding s"
    by (simp add: n_silence_def n_sounding_def t tr)
  have one: "n_ready s \<le> 1" "n_sounding s \<le> 1"
    using one_loop_sounding [OF assms(2)] by simp_all
  have ends: "\<not> alive (threads (exec flt sine as (stop s)) ! i)"
    if "i < length (threads s)" "4 \<le> count_list as (Step i)"
    using flagged_run_ends [OF assms(1) f, of i flt sine] that t by simp
  from f t d tones sil one ends show ?thesis by blast
qed

theorem stop_effect_witness:
  "pc (threads (stop (steps lib_sin [0, 0] (start (initial DEFAULT 44100 Absent)))) ! 0)
     = ToneReady \<and>
   n_tone (exec typed_float lib_sin [Step 0, Step 0, Step 0, Step 0]
       (stop (steps lib_sin [0, 0] (start (initial DEFAULT 44100 Absent))))) \<le> 1 \<and>
   n_silence (exec typed_float lib_sin [Step 0, Step 0, Step 0, Step 0]
       (stop (steps lib_sin [0, 0] (start (initial DEFAULT 44100 Absent))))) \<le> 1 \<and>
   \<not> alive (threads (exec typed_float lib_sin [Step 0, Step 0, Step 0, Step 0]
       (stop (steps lib_sin [0, 0] (start (initial DEFAULT 44100 Absent))))) ! 0)"
proof -
  let ?s = "steps lib_sin [0, 0] (start (initial DEFAULT 44100 Absent))"
  let ?as = "[Step 0, Step 0, Step 0, Step 0]"
  have h: "list_all (\<lambda>a. \<not> restarts a) ?as" "one_loop ?s"
    unfolding ready_state by (simp_all add: one_loop_def)
  have c: "0 < length (threads ?s)" "4 \<le> count_list ?as (Step 0)"
    "pc (threads (stop ?s) ! 0) = ToneReady"
    "n_tone ?s = 0" "n_silence ?s = 0"
    unfolding ready_state by (simp_all add: n_tone_def n_silence_def initial_trace stop_def)
  from stop_effect [OF h, of typed_float lib_sin 0] c show ?thesis by simp
qed

text \<open>
  C1 as stated fails: when \<open>stop\<close> returns just after the thread passed the test of
  line 65, the thread is still alive, and its next step starts a whole tone.
\<close>

theorem stop_returns_early_counterexample:
  "alive (threads (stop (steps lib_sin [0, 0] (start (initial DEFAULT 44100 Absent)))) ! 0) \<and>
   trace (step lib_sin 0 (stop (steps lib_sin [0, 0] (start (initial DEFAULT 44100 Absent)))))
     = trace (stop (steps lib_sin [0, 0] (start (initial DEFAULT 44100 Absent))))
         @ [PlayTone (gen_sig lib_sin DEFAULT 44100 44100)]"
  unfolding ready_state
  by (simp add: stop_def step_def run_step_def too_big_def sd_play_def alive_def
        initial_fields initial_trace)

text \<open>
  C7, as amended. \<open>start\<close> is idempotent and does nothing while the loop runs; after
  two calls in a row, from any state the program can reach, exactly one thread is inside
  \<open>_run\<close>. \<open>stop\<close> is idempotent. A player that was not running is not running after
  two calls of \<open>stop\<close>; one that was running ends within four steps of its thread.
\<close>

theorem start_stop_idempotent:
  "start (start s) = start s \<and> (running s \<longrightarrow> start s = s) \<and>
   running_loops (start (start (exec flt sine as (initial p fs f)))) = 1 \<and>
   stop (stop s) = stop s \<and>
   (\<not> running s \<longrightarrow> \<not> running (stop (stop s))) \<and>
   (list_all (\<lambda>a. \<not> restarts a) bs \<and> i < length (threads s) \<and> 4 \<le> count_list bs (Step i) \<longrightarrow>
      \<not> alive (threads (exec flt sine bs (stop (stop s))) ! i))"
proof -
  have "one_loop (start (exec flt sine as (initial p fs f)))"
    by (intro one_loop_start one_loop_exec one_loop_initial)
  then have one: "running_loops (start (start (exec flt sine as (initial p fs f)))) = 1"
    by (simp add: start_idem one_loop_count running_start)
  have ends: "\<not> alive (threads (exec flt sine bs (stop (stop s))) ! i)"
    if "list_all (\<lambda>a. \<not> restarts a) bs" "i < length (threads s)" "4 \<le> count_list bs (Step i)"
    using flagged_run_ends [of bs "stop s" i flt sine] that
    by (simp add: stop_idem) (simp add: stop_def)
  from one ends show ?thesis
    by (simp add: start_idem start_running stop_idem running_stop)
qed

theorem start_stop_idempotent_witness:
  "start (steps lib_sin [0, 0, 0] (start (initial DEFAULT 44100 Absent)))
     = steps lib_sin [0, 0, 0] (start (initial DEFAULT 44100 Absent)) \<and>
   \<not> running (stop (stop (initial DEFAULT 44100 Absent))) \<and>
   \<not> alive (threads (exec typed_float lib_sin [Step 0, Step 0, Step 0, Step 0]
        (stop (stop (steps lib_sin [0, 0, 0] (start (initial DEFAULT 44100 Absent)))))) ! 0)"
proof -
  let ?s = "steps lib_sin [0, 0, 0] (start (initial DEFAULT 44100 Absent))"
  let ?as = "[Step 0, Step 0, Step 0, Step 0]"
  have r: "running ?s" "\<not> running (initial DEFAULT 44100 Absent)"
    unfolding playing_state by (simp_all add: running_iff alive_def initial_fields)
  have c: "list_all (\<lambda>a. \<not> restarts a) ?as" "0 < length (threads ?s)"
    "4 \<le> count_list ?as (Step 0)"
    unfolding playing_state by simp_all
  from start_stop_idempotent [of ?s] r(1) have 1: "start ?s = ?s" by blast
  from start_stop_idempotent [of "initial DEFAULT 44100 Absent"] r(2)
  have 2: "\<not> running (stop (stop (initial DEFAULT 44100 Absent)))" by blast
  from start_stop_idempotent [of ?s typed_float lib_sin "[]" DEFAULT 44100 Absent ?as 0] c
  have 3: "\<not> alive (threads (exec typed_float lib_sin ?as (stop (stop ?s))) ! 0)" by blast
  from 1 2 3 show ?thesis by simp
qed

text \<open>
  C7 as stated fails in its last part: after two calls of \<open>stop\<close> during a tone the
  loop is still running.
\<close>

theorem stop_twice_counterexample:
  "running (stop (stop (steps lib_sin [0, 0, 0] (start (initial DEFAULT 44100 Absent)))))"
  unfolding playing_state by (simp add: running_iff stop_def alive_def)

subsection \<open>A parameter update while the loop runs\<close>

text \<open>
  The first tone of a run is the waveform of the parameters the player started with.
\<close>

lemma first_tone:
  assumes "play_samples_of p fs \<le> cycle_samples_of p fs"
    and "too_big (2 ^ 32) (cycle_samples_of p fs - play_samples_of p fs) = None"
    and "too_big (2 ^ 32) (play_samples_of p fs) = None"
  shows "trace (steps sine [0, 0, 0] (start (initial p fs f)))
           = [PlayTone (gen_sig sine p fs (play_samples_of p fs))]"
  using assms
  by (simp add: initial_def start_def running_def step_def run_step_def new_thread_def
        Let_def sd_play_def)

text \<open>An update touches neither the buffer being played nor any thread.\<close>

lemma apply_keeps_phase:
  "device (apply_params flt e s) = device s \<and> threads (apply_params flt e s) = threads s"
  by (simp add: apply_params_globals)

lemma updated_counts:
  "idle_ticks \<lparr>frequency = 880, volume = b64 (1 / 5), play_sec = 3, cycle_sec = 5\<rparr> = 2"
  "play_samples_of \<lparr>frequency = 880, volume = b64 (1 / 5), play_sec = 3, cycle_sec = 5\<rparr> 44100
     = 132300"
  by (simp_all add: idle_ticks_def play_samples_of_def py_int_def fl_eval)

lemma update_while_playing:
  "apply_params typed_float (entered ''880'' ''0.2'' ''3'' ''5'') s
     = s\<lparr>params := \<lparr>frequency = 880, volume = b64 (1 / 5), play_sec = 3, cycle_sec = 5\<rparr>,
         param_file := Content (dump \<lparr>frequency = 880, volume = b64 (1 / 5), play_sec = 3,
                                       cycle_sec = 5\<rparr>)\<rparr>"
proof -
  have a: "accepted typed_float (entered ''880'' ''0.2'' ''3'' ''5'')"
    by (simp add: accepted_def typed_float_def entered_def)
  have m: "max (b64 (1 / 10)) 3 = 3" "max (b64 (1 / 10)) 5 = 5"
    "max 0 (min 1 (b64 (1 / 5))) = b64 (1 / 5)"
    by (simp_all add: b64_values)
  show ?thesis
    by (simp add: apply_params_accepted [OF a]) (simp add: typed_float_def entered_def m)
qed

text \<open>
  C2 at a concrete run. The player starts with the defaults at 44100 Hz; during the first
  tone the user applies 880 Hz, volume 0.2, a tone of 3 s and a cycle of 5 s. The next
  tone has the new frequency and volume, but still the 44100 samples fixed by line 61
  before the loop, where the new parameters ask for 132300.
\<close>

theorem stale_tone_length:
  "trace (exec typed_float lib_sin
            [Start, Step 0, Step 0, Step 0, Apply (entered ''880'' ''0.2'' ''3'' ''5''),
             Step 0, Step 0, Step 0, Step 0, Step 0, Step 0]
            (initial DEFAULT 44100 Absent))
     = [PlayTone (gen_sig lib_sin DEFAULT 44100 44100),
        PlaySilence (replicate 2601900 (0, 0)),
        PlayTone (gen_sig lib_sin
                    \<lparr>frequency = 880, volume = b64 (1 / 5), play_sec = 3, cycle_sec = 5\<rparr>
                    44100 44100)] \<and>
   params (exec typed_float lib_sin
            [Start, Step 0, Step 0, Step 0, Apply (entered ''880'' ''0.2'' ''3'' ''5''),
             Step 0, Step 0, Step 0, Step 0, Step 0, Step 0]
            (initial DEFAULT 44100 Absent))
     = \<lparr>frequency = 880, volume = b64 (1 / 5), play_sec = 3, cycle_sec = 5\<rparr> \<and>
   length (gen_sig lib_sin
             \<lparr>frequency = 880, volume = b64 (1 / 5), play_sec = 3, cycle_sec = 5\<rparr>
             44100 44100) = 44100 \<and>
   play_samples_of \<lparr>frequency = 880, volume = b64 (1 / 5), play_sec = 3, cycle_sec = 5\<rparr> 44100
     = 132300"
proof -
  let ?q = "\<lparr>frequency = 880, volume = b64 (1 / 5), play_sec = 3, cycle_sec = 5\<rparr>"
  let ?run = "exec typed_float lib_sin
            [Start, Step 0, Step 0, Step 0, Apply (entered ''880'' ''0.2'' ''3'' ''5''),
             Step 0, Step 0, Step 0, Step 0, Step 0, Step 0]
            (initial DEFAULT 44100 Absent)"
  have "trace ?run = [PlayTone (gen_sig lib_sin DEFAULT 44100 44100),
        PlaySilence (replicate 2601900 (0, 0)), PlayTone (gen_sig lib_sin ?q 44100 44100)]"
    by (simp add: update_while_playing)
       (simp add: run_defs default_counts updated_counts)
  moreover have "params ?run = ?q"
    by (simp add: update_while_playing)
       (simp add: run_defs default_counts updated_counts)
  ultimately show ?thesis by (simp add: length_gen_sig updated_counts)
qed

subsection \<open>The level read-out\<close>

text \<open>Called with the window open, \<open>update_levels\<close> would show the pair it is given.\<close>

lemma update_levels_shows:
  "root s \<Longrightarrow> left_lbl (update_levels l r s) = l \<and> right_lbl (update_levels l r s) = r"
  by (simp add: update_levels_def)

text \<open>No action of the program calls \<open>update_levels\<close>: the two labels keep what they show.\<close>

lemma levels_perform:
  "left_lbl (perform flt sine a s) = left_lbl s \<and> right_lbl (perform flt sine a s) = right_lbl s"
  by (cases a)
     (simp_all add: start_def stop_def toggle_play_def apply_params_globals step_globals)

lemma levels_never_change:
  "left_lbl (exec flt sine as s) = left_lbl s \<and> right_lbl (exec flt sine as s) = right_lbl s"
  by (induction as arbitrary: s) (simp_all add: levels_perform)

lemma scenario_counts:
  "play_samples_of scenario 44100 = 44100" "cycle_samples_of scenario 44100 = 220500"
  by (simp_all add: play_samples_of_def cycle_samples_of_def scenario_def py_int_def fl_eval)

text \<open>
  C9 at a concrete run. In the scenario the first tone is playing and its sample 1 is
  positive on both channels, while both level labels still show zero.
\<close>

theorem levels_stay_zero:
  "device (exec typed_float lib_sin [Start, Step 0, Step 0, Step 0]
             (initial scenario 44100 Absent))
     = Sounding (gen_sig lib_sin scenario 44100 44100) \<and>
   0 < fst (gen_sig lib_sin scenario 44100 44100 ! 1) \<and>
   0 < snd (gen_sig lib_sin scenario 44100 44100 ! 1) \<and>
   left_lbl (exec typed_float lib_sin [Start, Step 0, Step 0, Step 0]
               (initial scenario 44100 Absent)) = 0 \<and>
   right_lbl (exec typed_float lib_sin [Start, Step 0, Step 0, Step 0]
                (initial scenario 44100 Absent)) = 0"
proof -
  have 1: "device (exec typed_float lib_sin [Start, Step 0, Step 0, Step 0]
             (initial scenario 44100 Absent))
     = Sounding (gen_sig lib_sin scenario 44100 44100)"
    by (simp add: run_defs scenario_counts)
  have 2: "gen_sig lib_sin scenario 44100 44100 ! 1
             = (13453625 / 1073741824, 13453625 / 1073741824)"
    using sample_1_at_44100 by (simp add: nth_gen_sig scenario_def)
  have 3: "left_lbl (exec typed_float lib_sin [Start, Step 0, Step 0, Step 0]
               (initial scenario 44100 Absent)) = 0"
    "right_lbl (exec typed_float lib_sin [Start, Step 0, Step 0, Step 0]
               (initial scenario 44100 Absent)) = 0"
    by (simp_all add: run_defs scenario_counts)
  from 1 2 3 show ?thesis by simp
qed

end
